theory Spec2Isabelle
  imports Main "HOL-Library.AList"
begin

section \<open>Python values, exceptions and the world of \<open>dxjob.py\<close>\<close>

text \<open>
  The module \<open>dxpy/bindings/dxjob.py\<close> manipulates untyped Python values: the function
  input (a dict), the function name (a string), the responses of the API server and the
  result of a job run in place. They are modelled by one datatype. A dict is an
  association list with distinct keys, read with \<open>map_of\<close> and written with
  \<open>AList.update\<close> (an existing key is overwritten in place, a new key is added).
\<close>

datatype pyval =
    PNone
  | PBool bool
  | PInt int
  | PStr string
  | PList "pyval list"
  | PDict "(string \<times> pyval) list"

text \<open>
  Exceptions. \<open>DXJobFailureError\<close> carries its message, as the three \<open>raise\<close>
  statements of \<open>wait_on_done\<close> give it one each. \<open>Raised\<close> is any exception that
  comes out of a call that leaves the module (the API server, the in-place runner,
  \<open>time.sleep\<close>).
\<close>

datatype exn =
    AttributeError
  | KeyError
  | TypeError
  | DXJobFailureError string
  | Raised pyval

type_synonym kwargs = "(string \<times> pyval) list"

type_synonym ref = nat

text \<open>
  Every call that leaves the module is an event. The world keeps the list of the events
  so far, oldest first.
\<close>

datatype event =
    JobNew pyval kwargs
  | JobDescribe pyval pyval kwargs
  | JobTerminate pyval kwargs
  | Run pyval pyval
  | Sleep int

text \<open>
  The instance attributes of a \<open>DXJob\<close> object. \<open>None\<close> is an attribute that no
  statement has assigned yet; \<open>blank\<close> is the object as \<open>__init__\<close> receives it.
\<close>

record handle =
  dxid :: "pyval option"
  test_harness_result :: "pyval option"

definition blank :: handle where
  "blank = \<lparr>dxid = None, test_harness_result = None\<rparr>"

text \<open>
  The world: \<open>os.environ\<close>, the module's global dict \<open>_test_harness_jobs\<close> (from job
  ID to the handler object, held by reference), the objects by reference, and the events.
\<close>

record world =
  environ :: "string \<rightharpoonup> string"
  test_harness_jobs :: "(pyval \<times> ref) list"
  heap :: "ref \<Rightarrow> handle"
  next_ref :: ref
  calls :: "event list"

text \<open>
  What the module takes from outside itself. \<open>base_dxid\<close> is the class attribute
  \<open>_dxid\<close> that \<open>DXJob\<close> inherits from \<open>DXObject\<close> (defined in
  \<open>dxpy/bindings/__init__.py\<close>), \<open>None\<close> when the base class declares none: Python
  reads it when the instance has no attribute of that name. \<open>respond\<close> is the answer
  of the outside to an event, given the events before it: a value, or an exception.
\<close>

record outside =
  base_dxid :: "pyval option"
  respond :: "event list \<Rightarrow> event \<Rightarrow> exn + pyval"

definition call_out :: "outside \<Rightarrow> event \<Rightarrow> world \<Rightarrow> (exn + pyval) \<times> world" where
  "call_out out ev w = (respond out (calls w) ev, w\<lparr>calls := calls w @ [ev]\<rparr>)"

text \<open>\<open>x[k]\<close> for a string key: only a dict that has the key answers.\<close>

fun subscript :: "pyval \<Rightarrow> string \<Rightarrow> exn + pyval" where
  "subscript (PDict d) k = (case map_of d k of None \<Rightarrow> Inl KeyError | Some v \<Rightarrow> Inr v)"
| "subscript v k = Inl TypeError"

text \<open>\<open>str(n)\<close> for an integer \<open>n \<ge> 0\<close>: its decimal digits.\<close>

definition digit_char :: "nat \<Rightarrow> char" where
  "digit_char d = char_of (48 + d)"

fun str_nat :: "nat \<Rightarrow> string" where
  "str_nat n = (if n < 10 then [digit_char n] else str_nat (n div 10) @ [digit_char (n mod 10)])"

declare str_nat.simps [simp del]

section \<open>The class \<open>DXJob\<close>\<close>

text \<open>
  In the functions below \<open>kw\<close> is the dict \<open>kwargs\<close> of the body. A call that
  passes \<open>**kwargs\<close> on together with a keyword of its own raises \<open>TypeError\<close>
  (multiple values for the keyword) when \<open>kwargs\<close> holds that keyword too, before the
  body of the callee runs: \<open>self.describe(io=False, **kwargs)\<close> in \<open>_get_state\<close> when
  \<open>kwargs\<close> has the key \<open>io\<close>, and \<open>dxjob.new(fn_input, fn_name, **kwargs)\<close> in
  \<open>new_dxjob\<close> when \<open>kwargs\<close> has the key \<open>self\<close>.
\<close>

definition set_id :: "ref \<Rightarrow> pyval \<Rightarrow> world \<Rightarrow> world" where
  "set_id self v w = w\<lparr>heap := (heap w)(self := (heap w self)\<lparr>dxid := Some v\<rparr>)\<rparr>"

text \<open>\<open>self._dxid\<close>: the instance attribute, else the inherited one, else an error.\<close>

definition get_id :: "outside \<Rightarrow> ref \<Rightarrow> world \<Rightarrow> exn + pyval" where
  "get_id out self w =
     (case dxid (heap w self) of
        Some v \<Rightarrow> Inr v
      | None \<Rightarrow> (case base_dxid out of Some v \<Rightarrow> Inr v | None \<Rightarrow> Inl AttributeError))"

text \<open>\<open>__init__(self, dxid=None)\<close>; the argument \<open>None\<close> is Python's \<open>None\<close>.\<close>

definition DXJob_init :: "ref \<Rightarrow> pyval \<Rightarrow> world \<Rightarrow> world" where
  "DXJob_init self v w =
     (let w1 = w\<lparr>heap := (heap w)(self := (heap w self)\<lparr>test_harness_result := Some PNone\<rparr>)\<rparr>
      in if v \<noteq> PNone then set_id self v w1 else w1)"

text \<open>\<open>DXJob(dxid)\<close>: a new object, then \<open>__init__\<close> on it.\<close>

definition DXJob :: "pyval \<Rightarrow> world \<Rightarrow> ref \<times> world" where
  "DXJob v w =
     (let r = next_ref w
      in (r, DXJob_init r v (w\<lparr>heap := (heap w)(r := blank), next_ref := Suc r\<rparr>)))"

definition new :: "outside \<Rightarrow> ref \<Rightarrow> pyval \<Rightarrow> pyval \<Rightarrow> kwargs \<Rightarrow> world \<Rightarrow> (exn + unit) \<times> world" where
  "new out self fn_input fn_name kw w =
     (if ''DX_JOB_ID'' \<in> dom (environ w) then
        (let req_input = AList.update ''function'' fn_name (AList.update ''input'' fn_input [])
         in case call_out out (JobNew (PDict req_input) kw) w of
              (Inl e, w1) \<Rightarrow> (Inl e, w1)
            | (Inr resp, w1) \<Rightarrow>
                (case subscript resp ''id'' of
                   Inl e \<Rightarrow> (Inl e, w1)
                 | Inr i \<Rightarrow> (Inr (), set_id self i w1)))
      else
        (case call_out out (Run fn_name fn_input) w of
           (Inl e, w1) \<Rightarrow> (Inl e, w1)
         | (Inr result, w1) \<Rightarrow>
             (let w2 = set_id self (PStr (''job-'' @ str_nat (length (test_harness_jobs w1) + 1))) w1
              in case get_id out self w2 of
                   Inl e \<Rightarrow> (Inl e, w2)
                 | Inr k \<Rightarrow>
                     (let w3 = w2\<lparr>test_harness_jobs := AList.update k self (test_harness_jobs w2)\<rparr>
                      in (Inr (),
                          w3\<lparr>heap := (heap w3)(self := (heap w3 self)\<lparr>test_harness_result := Some result\<rparr>)\<rparr>)))))"

definition new_dxjob :: "outside \<Rightarrow> pyval \<Rightarrow> pyval \<Rightarrow> kwargs \<Rightarrow> world \<Rightarrow> (exn + ref) \<times> world" where
  "new_dxjob out fn_input fn_name kw w =
     (case DXJob PNone w of
        (dxjob, w1) \<Rightarrow>
          if ''self'' \<in> dom (map_of kw) then (Inl TypeError, w1)
          else
            (case new out dxjob fn_input fn_name kw w1 of
               (Inl e, w2) \<Rightarrow> (Inl e, w2)
             | (Inr u, w2) \<Rightarrow> (Inr dxjob, w2)))"

definition describe :: "outside \<Rightarrow> ref \<Rightarrow> bool \<Rightarrow> kwargs \<Rightarrow> world \<Rightarrow> (exn + pyval) \<times> world" where
  "describe out self io kw w =
     (case get_id out self w of
        Inl e \<Rightarrow> (Inl e, w)
      | Inr i \<Rightarrow> call_out out (JobDescribe i (PDict [(''io'', PBool io)]) kw) w)"

definition get_state :: "outside \<Rightarrow> ref \<Rightarrow> kwargs \<Rightarrow> world \<Rightarrow> (exn + pyval) \<times> world" where
  "get_state out self kw w =
     (if ''io'' \<in> dom (map_of kw) then (Inl TypeError, w)
      else
        (case describe out self False kw w of
           (Inl e, w1) \<Rightarrow> (Inl e, w1)
         | (Inr resp, w1) \<Rightarrow> (subscript resp ''state'', w1)))"

definition terminate :: "outside \<Rightarrow> ref \<Rightarrow> kwargs \<Rightarrow> world \<Rightarrow> (exn + unit) \<times> world" where
  "terminate out self kw w =
     (case get_id out self w of
        Inl e \<Rightarrow> (Inl e, w)
      | Inr i \<Rightarrow>
          (case call_out out (JobTerminate i kw) w of
             (Inl e, w1) \<Rightarrow> (Inl e, w1)
           | (Inr r, w1) \<Rightarrow> (Inr (), w1)))"

text \<open>
  The loop of \<open>wait_on_done\<close>, with \<open>elapsed\<close> as an argument. It may run forever,
  so it is a partial function: \<open>None\<close> is a call that never returns.
\<close>

partial_function (option) wait_loop ::
  "outside \<Rightarrow> ref \<Rightarrow> int \<Rightarrow> int \<Rightarrow> kwargs \<Rightarrow> int \<Rightarrow> world \<Rightarrow> ((exn + unit) \<times> world) option" where
  "wait_loop out self interval timeout kw elapsed w =
     (case get_state out self kw w of
        (Inl e, w1) \<Rightarrow> Some (Inl e, w1)
      | (Inr state, w1) \<Rightarrow>
          if state = PStr ''done'' then Some (Inr (), w1)
          else if state = PStr ''failed'' then Some (Inl (DXJobFailureError ''Job has failed.''), w1)
          else if state = PStr ''terminated'' then Some (Inl (DXJobFailureError ''Job was terminated.''), w1)
          else if elapsed \<ge> timeout \<or> elapsed < 0 then
            Some (Inl (DXJobFailureError ''Reached timeout while waiting for the job to finish''), w1)
          else
            (case call_out out (Sleep interval) w1 of
               (Inl e, w2) \<Rightarrow> Some (Inl e, w2)
             | (Inr r, w2) \<Rightarrow> wait_loop out self interval timeout kw (elapsed + interval) w2))"

definition wait_on_done ::
  "outside \<Rightarrow> ref \<Rightarrow> int \<Rightarrow> int \<Rightarrow> kwargs \<Rightarrow> world \<Rightarrow> ((exn + unit) \<times> world) option" where
  "wait_on_done out self interval timeout kw w = wait_loop out self interval timeout kw 0 w"

declare wait_loop.simps [code]

section \<open>Notions the properties are stated with\<close>

text \<open>The event of one poll of \<open>wait_on_done\<close>: \<open>describe(io=False, **kwargs)\<close>.\<close>

definition poll :: "pyval \<Rightarrow> kwargs \<Rightarrow> event" where
  "poll i kw = JobDescribe i (PDict [(''io'', PBool False)]) kw"

fun is_describe :: "event \<Rightarrow> bool" where
  "is_describe (JobDescribe i q kw) = True"
| "is_describe ev = False"

definition describe_calls :: "world \<Rightarrow> nat" where
  "describe_calls w = length (filter is_describe (calls w))"

text \<open>The state that a response carries, when it carries one.\<close>

definition state_of :: "exn + pyval \<Rightarrow> pyval option" where
  "state_of r =
     (case r of
        Inl e \<Rightarrow> None
      | Inr resp \<Rightarrow> (case subscript resp ''state'' of Inl e \<Rightarrow> None | Inr s \<Rightarrow> Some s))"

text \<open>A state that is none of the three that end the wait.\<close>

definition in_progress :: "pyval \<Rightarrow> bool" where
  "in_progress s \<longleftrightarrow> s \<noteq> PStr ''done'' \<and> s \<noteq> PStr ''failed'' \<and> s \<noteq> PStr ''terminated''"

fun returns :: "exn + pyval \<Rightarrow> bool" where
  "returns (Inr v) = True"
| "returns (Inl e) = False"

text \<open>The ID that detached mode gives to the \<open>k\<close>-th job.\<close>

definition job_name :: "nat \<Rightarrow> pyval" where
  "job_name k = PStr (''job-'' @ str_nat k)"

text \<open>
  Calls of \<open>new\<close> one after the other, each on its own handler and arguments, reading
  the ID of each handler with \<open>get_id\<close> as soon as its \<open>new\<close> has returned. The
  first exception ends the sequence.
\<close>

fun new_each ::
  "outside \<Rightarrow> (ref \<times> pyval \<times> pyval \<times> kwargs) list \<Rightarrow> world \<Rightarrow> (exn + pyval list) \<times> world" where
  "new_each out [] w = (Inr [], w)"
| "new_each out ((self, fn_input, fn_name, kw) # rs) w =
     (case new out self fn_input fn_name kw w of
        (Inl e, w1) \<Rightarrow> (Inl e, w1)
      | (Inr u, w1) \<Rightarrow>
          (case get_id out self w1 of
             Inl e \<Rightarrow> (Inl e, w1)
           | Inr i \<Rightarrow>
               (case new_each out rs w1 of
                  (Inl e, w2) \<Rightarrow> (Inl e, w2)
                | (Inr ids, w2) \<Rightarrow> (Inr (i # ids), w2))))"

text \<open>
  The world when the module has just been loaded (\<open>_test_harness_jobs = {}\<close>), outside
  an execution environment and inside one.
\<close>

definition world0 :: world where
  "world0 = \<lparr>environ = Map.empty, test_harness_jobs = [], heap = (\<lambda>r. blank),
             next_ref = 0, calls = []\<rparr>"

definition world_remote :: world where
  "world_remote = world0\<lparr>environ := [''DX_JOB_ID'' \<mapsto> ''job-0'']\<rparr>"

text \<open>The world after \<open>DXJob("job-XYZ")\<close>: the object 0 is a handler bound to that ID.\<close>

definition world_bound :: world where
  "world_bound = snd (DXJob (PStr ''job-XYZ'') world0)"

text \<open>
  Outsides to run the module against: a job that is always in the given state, with a
  runner that returns 3 and an API server that creates \<open>job-XYZ\<close>; and one where every
  call raises. Neither has a base class attribute \<open>_dxid\<close>.
\<close>

definition job_in_state :: "string \<Rightarrow> outside" where
  "job_in_state s =
     \<lparr>base_dxid = None,
      respond = (\<lambda>h ev. case ev of
                   JobNew p kw \<Rightarrow> Inr (PDict [(''id'', PStr ''job-XYZ'')])
                 | JobDescribe i q kw \<Rightarrow> Inr (PDict [(''state'', PStr s)])
                 | JobTerminate i kw \<Rightarrow> Inr (PDict [])
                 | Run n x \<Rightarrow> Inr (PInt 3)
                 | Sleep t \<Rightarrow> Inr PNone)\<rparr>"

definition all_raise :: outside where
  "all_raise = \<lparr>base_dxid = None, respond = (\<lambda>h ev. Inl (Raised (PStr ''boom'')))\<rparr>"

section \<open>Facts about the model\<close>

subsection \<open>Reading the state of a bound handler\<close>

lemma get_id_calls [simp]: "get_id out self (w\<lparr>calls := c\<rparr>) = get_id out self w"
  by (simp add: get_id_def)

lemma get_state_io_clash:
  assumes "''io'' \<in> dom (map_of kw)"
  shows "get_state out self kw w = (Inl TypeError, w)"
    and "wait_loop out self interval timeout kw elapsed w = Some (Inl TypeError, w)"
    and "wait_on_done out self interval timeout kw w = Some (Inl TypeError, w)"
  using assms by (simp_all add: get_state_def wait_on_done_def wait_loop.simps)

lemma get_state_bound:
  assumes "''io'' \<notin> dom (map_of kw)" and "get_id out self w = Inr i"
  shows "get_state out self kw w =
     (case respond out (calls w) (poll i kw) of
        Inl e \<Rightarrow> Inl e
      | Inr resp \<Rightarrow> subscript resp ''state'',
      w\<lparr>calls := calls w @ [poll i kw]\<rparr>)"
  using assms by (simp add: get_state_def describe_def call_out_def poll_def split: sum.splits)

lemma get_state_of:
  assumes "''io'' \<notin> dom (map_of kw)"
    and "get_id out self w = Inr i" and "state_of (respond out (calls w) (poll i kw)) = Some s"
  shows "get_state out self kw w = (Inr s, w\<lparr>calls := calls w @ [poll i kw]\<rparr>)"
  using assms by (simp add: get_state_bound state_of_def split: sum.splits)

lemma wait_loop_step:
  assumes "get_id out self w = Inr i"
    and "state_of (respond out (calls w) (poll i kw)) = Some s"
    and "in_progress s"
    and "elapsed < timeout" and "0 \<le> elapsed"
    and "returns (respond out (calls w @ [poll i kw]) (Sleep interval))"
    and noio: "''io'' \<notin> dom (map_of kw)"
  shows "wait_loop out self interval timeout kw elapsed w =
         wait_loop out self interval timeout kw (elapsed + interval)
           (w\<lparr>calls := calls w @ [poll i kw, Sleep interval]\<rparr>)"
proof -
  obtain v where v: "respond out (calls w @ [poll i kw]) (Sleep interval) = Inr v"
    using assms(6) by (cases "respond out (calls w @ [poll i kw]) (Sleep interval)") auto
  show ?thesis
    using assms(3-5) v
    by (subst wait_loop.simps)
       (simp add: get_state_of [OF noio assms(1,2)] in_progress_def call_out_def)
qed

lemma wait_loop_timeout:
  assumes "get_id out self w = Inr i"
    and "state_of (respond out (calls w) (poll i kw)) = Some s"
    and "in_progress s"
    and "timeout \<le> elapsed \<or> elapsed < 0"
    and noio: "''io'' \<notin> dom (map_of kw)"
  shows "wait_loop out self interval timeout kw elapsed w =
         Some (Inl (DXJobFailureError ''Reached timeout while waiting for the job to finish''),
               w\<lparr>calls := calls w @ [poll i kw]\<rparr>)"
  using assms(3,4)
  by (subst wait_loop.simps) (simp add: get_state_of [OF noio assms(1,2)] in_progress_def)

subsection \<open>How many times the loop polls, and when it never returns\<close>

lemma describe_calls_get_state:
  "describe_calls (snd (get_state out self kw w)) \<le> Suc (describe_calls w)"
  by (simp add: get_state_def describe_def call_out_def describe_calls_def
           split: sum.splits prod.splits)

lemma describe_calls_sleep [simp]:
  "describe_calls (w\<lparr>calls := calls w @ [Sleep t]\<rparr>) = describe_calls w"
  by (simp add: describe_calls_def)

lemma wait_loop_returns:
  assumes "1 \<le> interval"
  shows "0 \<le> elapsed \<Longrightarrow>
    \<exists>r w'. wait_loop out self interval timeout kw elapsed w = Some (r, w')
       \<and> describe_calls w' \<le> describe_calls w + (nat ((timeout - elapsed + interval - 1) div interval) + 1)"
proof (induction "nat (timeout - elapsed)" arbitrary: elapsed w rule: less_induct)
  case less
  obtain g w1 where g: "get_state out self kw w = (g, w1)"
    by (cases "get_state out self kw w")
  have w1: "describe_calls w1 \<le> Suc (describe_calls w)"
    using describe_calls_get_state [of out self kw w] g by simp
  show ?case
  proof (cases "\<exists>s. g = Inr s \<and> in_progress s \<and> elapsed < timeout
                   \<and> returns (respond out (calls w1) (Sleep interval))")
    case False
    then have "\<exists>r. wait_loop out self interval timeout kw elapsed w = Some (r, w1)
               \<or> wait_loop out self interval timeout kw elapsed w = Some (r, w1\<lparr>calls := calls w1 @ [Sleep interval]\<rparr>)"
      using g less.prems
      by (subst (1 2) wait_loop.simps)
         (cases g; cases "respond out (calls w1) (Sleep interval)";
          auto simp add: in_progress_def call_out_def)
    then show ?thesis using w1 by auto
  next
    case True
    then obtain s v where s: "g = Inr s" "in_progress s" "elapsed < timeout"
      and v: "respond out (calls w1) (Sleep interval) = Inr v"
      by (cases "respond out (calls w1) (Sleep interval)") auto
    let ?w2 = "w1\<lparr>calls := calls w1 @ [Sleep interval]\<rparr>"
    have step: "wait_loop out self interval timeout kw elapsed w =
                wait_loop out self interval timeout kw (elapsed + interval) ?w2"
      using g s v less.prems
      by (subst wait_loop.simps) (simp add: in_progress_def call_out_def)
    have "nat (timeout - (elapsed + interval)) < nat (timeout - elapsed)"
      using s(3) assms by simp
    moreover have "0 \<le> elapsed + interval" using less.prems assms by simp
    ultimately obtain r w' where
      r: "wait_loop out self interval timeout kw (elapsed + interval) ?w2 = Some (r, w')"
      and b: "describe_calls w' \<le> describe_calls ?w2
                + (nat ((timeout - (elapsed + interval) + interval - 1) div interval) + 1)"
      using less.hyps [of "elapsed + interval" ?w2] by blast
    have "(timeout - elapsed + interval - 1) div interval
            = (timeout - elapsed - 1) div interval + 1"
    proof -
      have "interval \<noteq> 0" using assms by simp
      then have "(timeout - elapsed - 1 + interval) div interval
                   = (timeout - elapsed - 1) div interval + 1"
        by (rule div_add_self2)
      then show ?thesis by (simp add: algebra_simps)
    qed
    moreover have "0 \<le> (timeout - elapsed - 1) div interval"
      using s(3) assms by (simp add: pos_imp_zdiv_nonneg_iff)
    ultimately have "nat ((timeout - (elapsed + interval) + interval - 1) div interval) + 1
          = nat ((timeout - elapsed + interval - 1) div interval)"
      by (simp add: algebra_simps nat_add_distrib)
    then show ?thesis using step r b w1 by auto
  qed
qed

lemma wait_loop_forever_aux:
  assumes st: "\<forall>h. \<exists>s. state_of (respond out h (poll i kw)) = Some s \<and> in_progress s"
    and sl: "\<forall>h. returns (respond out h (Sleep 0))"
    and pos: "0 < timeout"
    and noio: "''io'' \<notin> dom (map_of kw)"
  shows "wait_loop out' self' interval' timeout' kw' elapsed' w' = Some y \<Longrightarrow>
         \<not> (out' = out \<and> self' = self \<and> interval' = 0 \<and> timeout' = timeout \<and> kw' = kw
              \<and> elapsed' = 0 \<and> get_id out self w' = Inr i)"
proof (induction out' self' interval' timeout' kw' elapsed' w' y
         rule: wait_loop.raw_induct [rotated 1, consumes 1])
  case (1 wl out' self' interval' timeout' kw' elapsed' w' y)
  show ?case
  proof
    assume a: "out' = out \<and> self' = self \<and> interval' = 0 \<and> timeout' = timeout \<and> kw' = kw
        \<and> elapsed' = 0 \<and> get_id out self w' = Inr i"
    then have id: "get_id out self w' = Inr i" by simp
    obtain s where s: "state_of (respond out (calls w') (poll i kw)) = Some s" "in_progress s"
      using st by blast
    obtain v where v: "respond out (calls w' @ [poll i kw]) (Sleep 0) = Inr v"
      using sl by (metis returns.elims(2))
    have "wl out self 0 timeout kw 0 (w'\<lparr>calls := calls w' @ [poll i kw, Sleep 0]\<rparr>) = Some y"
      using "1"(2) a s(2) v pos
      by (simp add: get_state_of [OF noio id s(1)] in_progress_def call_out_def)
    from "1"(1) [OF this] id show False by simp
  qed
qed

lemma wait_loop_forever:
  assumes "\<forall>h. \<exists>s. state_of (respond out h (poll i kw)) = Some s \<and> in_progress s"
    and "\<forall>h. returns (respond out h (Sleep 0))"
    and "0 < timeout"
    and "''io'' \<notin> dom (map_of kw)"
    and "get_id out self w = Inr i"
  shows "wait_loop out self 0 timeout kw 0 w = None"
proof (cases "wait_loop out self 0 timeout kw 0 w")
  case None
  then show ?thesis .
next
  case (Some y)
  from wait_loop_forever_aux [OF assms(1-4) Some] assms(5) show ?thesis by simp
qed

subsection \<open>Decimal numerals and the IDs of detached mode\<close>

lemma str_nat_nonempty: "str_nat n \<noteq> []"
  by (subst str_nat.simps) simp

lemma digit_char_inj:
  assumes "a < 10" and "b < 10" and "digit_char a = digit_char b"
  shows "a = b"
proof -
  have "of_char (digit_char a) = (of_char (digit_char b) :: nat)"
    using assms(3) by simp
  then have "(48 + a) mod 256 = (48 + b) mod 256"
    by (simp add: digit_char_def)
  then show ?thesis using assms(1,2) by simp
qed

lemma str_nat_inj: "str_nat m = str_nat n \<Longrightarrow> m = n"
proof (induction m arbitrary: n rule: str_nat.induct)
  case (1 m)
  show ?case
  proof (cases "m < 10")
    case small: True
    show ?thesis
    proof (cases "n < 10")
      case True
      with small "1.prems" show ?thesis
        by (simp add: str_nat.simps [of m] str_nat.simps [of n] digit_char_inj)
    next
      case False
      with small "1.prems" str_nat_nonempty [of "n div 10"] show ?thesis
        by (simp add: str_nat.simps [of m] str_nat.simps [of n])
    qed
  next
    case big: False
    show ?thesis
    proof (cases "n < 10")
      case True
      with big "1.prems" str_nat_nonempty [of "m div 10"] show ?thesis
        by (simp add: str_nat.simps [of m] str_nat.simps [of n])
    next
      case False
      with big "1.prems" have eq: "str_nat (m div 10) = str_nat (n div 10)"
        and d: "digit_char (m mod 10) = digit_char (n mod 10)"
        by (simp_all add: str_nat.simps [of m] str_nat.simps [of n])
      have "m div 10 = n div 10" using "1.IH" [OF big eq] .
      moreover have "m mod 10 = n mod 10" using d by (intro digit_char_inj) simp_all
      ultimately show ?thesis by (metis div_mult_mod_eq)
    qed
  qed
qed

lemma job_name_inj: "job_name a = job_name b \<Longrightarrow> a = b"
  by (simp add: job_name_def str_nat_inj)

lemma update_fresh: "k \<notin> fst ` set al \<Longrightarrow> AList.update k v al = al @ [(k, v)]"
  by (induction al) auto

lemma job_name_fresh: "job_name (Suc m) \<notin> set (map job_name [1..<Suc m])"
proof
  assume "job_name (Suc m) \<in> set (map job_name [1..<Suc m])"
  then obtain k where "k \<in> set [1..<Suc m]" and "job_name (Suc m) = job_name k" by auto
  then show False using job_name_inj [of "Suc m" k] by simp
qed

lemma distinct_job_names: "distinct (map job_name [1..<Suc m])"
  by (simp add: distinct_map inj_on_def job_name_inj)

lemma new_detached:
  assumes "''DX_JOB_ID'' \<notin> dom (environ w)"
    and "respond out (calls w) (Run fn_name fn_input) = Inr result"
  shows "fst (new out self fn_input fn_name kw w) = Inr ()"
    and "get_id out self (snd (new out self fn_input fn_name kw w))
           = Inr (job_name (Suc (length (test_harness_jobs w))))"
    and "test_harness_jobs (snd (new out self fn_input fn_name kw w))
           = AList.update (job_name (Suc (length (test_harness_jobs w)))) self (test_harness_jobs w)"
    and "environ (snd (new out self fn_input fn_name kw w)) = environ w"
    and "test_harness_result (heap (snd (new out self fn_input fn_name kw w)) self) = Some result"
  using assms
  by (simp_all add: new_def call_out_def get_id_def set_id_def job_name_def Let_def)

lemma new_each_detached:
  assumes runs: "\<forall>h n x. returns (respond out h (Run n x))"
  shows "''DX_JOB_ID'' \<notin> dom (environ w) \<Longrightarrow>
         map fst (test_harness_jobs w) = map job_name [1..<Suc m] \<Longrightarrow>
         \<exists>w'. new_each out rs w = (Inr (map job_name [Suc m..<Suc (m + length rs)]), w')
            \<and> map fst (test_harness_jobs w') = map job_name [1..<Suc (m + length rs)]"
proof (induction rs arbitrary: w m)
  case Nil
  then show ?case by simp
next
  case (Cons r rs)
  obtain self fn_input fn_name kw where r: "r = (self, fn_input, fn_name, kw)"
    by (cases r) auto
  obtain result where res: "respond out (calls w) (Run fn_name fn_input) = Inr result"
    using runs by (metis returns.elims(2))
  let ?n = "new out self fn_input fn_name kw w"
  have len: "length (test_harness_jobs w) = m"
    using Cons.prems(2) by (metis length_map length_upt diff_Suc_1)
  note nd = new_detached [OF Cons.prems(1) res, of self kw]
  have fresh: "job_name (Suc m) \<notin> fst ` set (test_harness_jobs w)"
    using job_name_fresh [of m] Cons.prems(2) by (metis set_map)
  have keys: "map fst (test_harness_jobs (snd ?n)) = map job_name [1..<Suc (Suc m)]"
    using nd(3) len Cons.prems(2) by (simp add: update_fresh [OF fresh])
  have env: "''DX_JOB_ID'' \<notin> dom (environ (snd ?n))"
    using nd(4) Cons.prems(1) by simp
  obtain w' where w': "new_each out rs (snd ?n) = (Inr (map job_name [Suc (Suc m)..<Suc (Suc m + length rs)]), w')"
    and k': "map fst (test_harness_jobs w') = map job_name [1..<Suc (Suc m + length rs)]"
    using Cons.IH [OF env keys] by blast
  obtain w1 where n: "new out self fn_input fn_name kw w = (Inr (), w1)"
    using nd(1) by (metis prod.collapse)
  have "new_each out (r # rs) w =
          (Inr (job_name (Suc m) # map job_name [Suc (Suc m)..<Suc (Suc m + length rs)]), w')"
    using nd(2) len w' by (simp add: r n del: upt_Suc)
  moreover have "[Suc m..<Suc (m + length (r # rs))] = Suc m # [Suc (Suc m)..<Suc (Suc m + length rs)]"
    by (simp add: upt_conv_Cons del: upt_Suc)
  ultimately show ?case using k' by (simp del: upt_Suc)
qed

lemma job_names_3:
  "map job_name [1..<Suc (length [a, b, c])] = [PStr ''job-1'', PStr ''job-2'', PStr ''job-3'']"
  by code_simp


subsection \<open>What leaves the dict of the test harness alone\<close>

lemma jobs_get_state: "test_harness_jobs (snd (get_state out self kw w)) = test_harness_jobs w"
  by (simp add: get_state_def describe_def call_out_def split: sum.splits prod.splits)

lemma wait_loop_jobs:
  "wait_loop out self interval timeout kw elapsed w = Some y \<Longrightarrow>
   test_harness_jobs (snd y) = test_harness_jobs w"
proof (induction out self interval timeout kw elapsed w y
         rule: wait_loop.raw_induct [rotated 1, consumes 1])
  case (1 wl out self interval timeout kw elapsed w y)
  obtain g w1 where g: "get_state out self kw w = (g, w1)"
    by (cases "get_state out self kw w")
  have w1: "test_harness_jobs w1 = test_harness_jobs w"
    using jobs_get_state [of out self kw w] g by simp
  show ?case
  proof (cases "\<exists>s v. g = Inr s \<and> in_progress s \<and> \<not> (timeout \<le> elapsed \<or> elapsed < 0)
                   \<and> respond out (calls w1) (Sleep interval) = Inr v")
    case False
    then have "snd y = w1 \<or> snd y = w1\<lparr>calls := calls w1 @ [Sleep interval]\<rparr>"
      using "1"(2) g
      by (cases g; cases "respond out (calls w1) (Sleep interval)")
         (auto simp add: in_progress_def call_out_def split: if_splits)
    then show ?thesis using w1 by auto
  next
    case True
    then have "wl out self interval timeout kw (elapsed + interval)
                 (w1\<lparr>calls := calls w1 @ [Sleep interval]\<rparr>) = Some y"
      using "1"(2) g by (auto simp add: in_progress_def call_out_def)
    from "1"(1) [OF this] w1 show ?thesis by simp
  qed
qed

section \<open>The properties\<close>

text \<open>
  C1. In \<open>wait_on_done\<close> the state \<open>done\<close> is tested before the timeout: when the
  handler is bound, the keyword arguments have no \<open>io\<close> (so that the describe call is
  made) and the first describe call answers with state \<open>done\<close>, the call with
  \<open>timeout = 0\<close> returns normally after that one poll; and the same holds in every
  iteration of the loop, whatever \<open>timeout\<close> and \<open>elapsed\<close> are.
\<close>

theorem wait_done_before_timeout:
  assumes "''io'' \<notin> dom (map_of kw)"
    and "get_id out self w = Inr i"
    and "state_of (respond out (calls w) (poll i kw)) = Some (PStr ''done'')"
  shows "wait_on_done out self interval 0 kw w = Some (Inr (), w\<lparr>calls := calls w @ [poll i kw]\<rparr>)
    \<and> wait_loop out self interval timeout kw elapsed w = Some (Inr (), w\<lparr>calls := calls w @ [poll i kw]\<rparr>)"
  using get_state_of [OF assms]
  by (simp add: wait_on_done_def wait_loop.simps)

theorem wait_done_before_timeout_witness:
  "''io'' \<notin> dom (map_of ([] :: kwargs))
   \<and> get_id (job_in_state ''done'') 0 world_bound = Inr (PStr ''job-XYZ'')
   \<and> state_of (respond (job_in_state ''done'') (calls world_bound) (poll (PStr ''job-XYZ'') []))
       = Some (PStr ''done'')
   \<and> wait_on_done (job_in_state ''done'') 0 2 0 [] world_bound
       = Some (Inr (), world_bound\<lparr>calls := calls world_bound @ [poll (PStr ''job-XYZ'') []]\<rparr>)
   \<and> wait_loop (job_in_state ''done'') 0 2 5 [] 7 world_bound
       = Some (Inr (), world_bound\<lparr>calls := calls world_bound @ [poll (PStr ''job-XYZ'') []]\<rparr>)"
proof -
  have h1: "get_id (job_in_state ''done'') 0 world_bound = Inr (PStr ''job-XYZ'')"
    by (simp add: get_id_def world_bound_def DXJob_def DXJob_init_def set_id_def world0_def Let_def)
  have h2: "state_of (respond (job_in_state ''done'') (calls world_bound) (poll (PStr ''job-XYZ'') []))
              = Some (PStr ''done'')"
    by (simp add: state_of_def job_in_state_def poll_def)
  have h0: "''io'' \<notin> dom (map_of ([] :: kwargs))" by simp
  show ?thesis
    using h0 h1 h2 wait_done_before_timeout [OF h0 h1 h2, of 2 5 7] by simp
qed

text \<open>
  C2. In every iteration of the loop of \<open>wait_on_done\<close> (and so in the first one),
  for a bound handler and keyword arguments without \<open>io\<close> (so that the describe call is
  made), a describe response with state \<open>failed\<close> makes the call raise \<open>DXJobFailureError\<close>
  with the message \<open>Job has failed.\<close>, and one with state \<open>terminated\<close> makes it raise
  \<open>DXJobFailureError\<close> with the message \<open>Job was terminated.\<close>. The error is raised
  right after that poll: the events of the call end with it, no sleep and no further poll
  follow. The two errors and the one of the timeout are three different values (one
  exception class, three messages), so a call ends in at most one of them.
\<close>

theorem wait_failed_terminated:
  assumes "''io'' \<notin> dom (map_of kw)"
    and "get_id out self w = Inr i"
    and "state_of (respond out (calls w) (poll i kw)) = Some s"
    and "s = PStr ''failed'' \<or> s = PStr ''terminated''"
  shows "wait_loop out self interval timeout kw elapsed w =
           Some (Inl (DXJobFailureError
                        (if s = PStr ''failed'' then ''Job has failed.'' else ''Job was terminated.'')),
                 w\<lparr>calls := calls w @ [poll i kw]\<rparr>)
    \<and> wait_on_done out self interval timeout kw w =
           Some (Inl (DXJobFailureError
                        (if s = PStr ''failed'' then ''Job has failed.'' else ''Job was terminated.'')),
                 w\<lparr>calls := calls w @ [poll i kw]\<rparr>)
    \<and> DXJobFailureError ''Job has failed.'' \<noteq> DXJobFailureError ''Job was terminated.''
    \<and> DXJobFailureError ''Job has failed.''
        \<noteq> DXJobFailureError ''Reached timeout while waiting for the job to finish''
    \<and> DXJobFailureError ''Job was terminated.''
        \<noteq> DXJobFailureError ''Reached timeout while waiting for the job to finish''"
  using get_state_of [OF assms(1-3)] assms(4)
  by (auto simp add: wait_on_done_def wait_loop.simps)

theorem wait_failed_terminated_witness:
  "''io'' \<notin> dom (map_of ([] :: kwargs))
   \<and> get_id (job_in_state ''failed'') 0 world_bound = Inr (PStr ''job-XYZ'')
   \<and> state_of (respond (job_in_state ''failed'') (calls world_bound) (poll (PStr ''job-XYZ'') []))
       = Some (PStr ''failed'')
   \<and> state_of (respond (job_in_state ''terminated'') (calls world_bound) (poll (PStr ''job-XYZ'') []))
       = Some (PStr ''terminated'')
   \<and> wait_on_done (job_in_state ''failed'') 0 2 5 [] world_bound
       = Some (Inl (DXJobFailureError ''Job has failed.''),
               world_bound\<lparr>calls := calls world_bound @ [poll (PStr ''job-XYZ'') []]\<rparr>)
   \<and> wait_on_done (job_in_state ''terminated'') 0 2 5 [] world_bound
       = Some (Inl (DXJobFailureError ''Job was terminated.''),
               world_bound\<lparr>calls := calls world_bound @ [poll (PStr ''job-XYZ'') []]\<rparr>)"
proof -
  have h1: "get_id (job_in_state s) 0 world_bound = Inr (PStr ''job-XYZ'')" for s
    by (simp add: get_id_def world_bound_def DXJob_def DXJob_init_def set_id_def world0_def Let_def)
  have h2: "state_of (respond (job_in_state s) (calls world_bound) (poll (PStr ''job-XYZ'') []))
              = Some (PStr s)" for s
    by (simp add: state_of_def job_in_state_def poll_def)
  have f: "PStr ''failed'' = PStr ''failed'' \<or> PStr ''failed'' = PStr ''terminated''" by simp
  have t: "PStr ''terminated'' = PStr ''failed'' \<or> PStr ''terminated'' = PStr ''terminated''" by simp
  have h0: "''io'' \<notin> dom (map_of ([] :: kwargs))" by simp
  show ?thesis
    using h0 h1 h2
      wait_failed_terminated [OF h0 h1 h2 f, of 2 5 0]
      wait_failed_terminated [OF h0 h1 h2 t, of 2 5 0]
    by simp
qed

text \<open>
  C3. With \<open>interval = 2\<close>, \<open>timeout = 5\<close>, a bound handler, keyword arguments
  without \<open>io\<close> (so that the describe calls are made), every describe call
  answering with state \<open>running\<close> and every sleep returning, \<open>wait_on_done\<close> goes
  through exactly three whole iterations (poll, sleep of 2 seconds, \<open>elapsed += 2\<close>),
  which bring \<open>elapsed\<close> to 6; the poll that follows still reports \<open>running\<close>, and
  the test \<open>6 >= 5\<close> raises the timeout error. The events of the call are three times
  poll and sleep, then the last poll.
\<close>

theorem wait_timeout_2_5:
  assumes "get_id out self w = Inr i"
    and "\<forall>h. state_of (respond out h (poll i kw)) = Some (PStr ''running'')"
    and "\<forall>h. returns (respond out h (Sleep 2))"
    and "''io'' \<notin> dom (map_of kw)"
  shows "wait_on_done out self 2 5 kw w =
           wait_loop out self 2 5 kw 6
             (w\<lparr>calls := calls w @ [poll i kw, Sleep 2, poll i kw, Sleep 2, poll i kw, Sleep 2]\<rparr>)
    \<and> wait_on_done out self 2 5 kw w =
        Some (Inl (DXJobFailureError ''Reached timeout while waiting for the job to finish''),
              w\<lparr>calls := calls w @ [poll i kw, Sleep 2, poll i kw, Sleep 2, poll i kw, Sleep 2, poll i kw]\<rparr>)"
proof -
  have run: "in_progress (PStr ''running'')" by (simp add: in_progress_def)
  have st: "\<And>w'. state_of (respond out (calls w') (poll i kw)) = Some (PStr ''running'')"
    using assms(2) by simp
  have sl: "\<And>w'. returns (respond out (calls w' @ [poll i kw]) (Sleep 2))"
    using assms(3) by simp
  have id: "\<And>c. get_id out self (w\<lparr>calls := c\<rparr>) = Inr i"
    using assms(1) by simp
  let ?w1 = "w\<lparr>calls := calls w @ [poll i kw, Sleep 2]\<rparr>"
  let ?w2 = "w\<lparr>calls := calls w @ [poll i kw, Sleep 2, poll i kw, Sleep 2]\<rparr>"
  let ?w3 = "w\<lparr>calls := calls w @ [poll i kw, Sleep 2, poll i kw, Sleep 2, poll i kw, Sleep 2]\<rparr>"
  have s1: "wait_loop out self 2 5 kw 0 w = wait_loop out self 2 5 kw 2 ?w1"
    using wait_loop_step [OF assms(1) st run _ _ sl assms(4), of 0 5] by simp
  have s2: "wait_loop out self 2 5 kw 2 ?w1 = wait_loop out self 2 5 kw 4 ?w2"
    using wait_loop_step [OF id st run _ _ sl assms(4), of 2 5] by simp
  have s3: "wait_loop out self 2 5 kw 4 ?w2 = wait_loop out self 2 5 kw 6 ?w3"
    using wait_loop_step [OF id st run _ _ sl assms(4), of 4 5] by simp
  have s4: "wait_loop out self 2 5 kw 6 ?w3 =
      Some (Inl (DXJobFailureError ''Reached timeout while waiting for the job to finish''),
            w\<lparr>calls := calls w @ [poll i kw, Sleep 2, poll i kw, Sleep 2, poll i kw, Sleep 2, poll i kw]\<rparr>)"
    using wait_loop_timeout [OF id st run _ assms(4), of 5 6] by simp
  show ?thesis
    unfolding wait_on_done_def using s1 s2 s3 s4 by simp
qed

theorem wait_timeout_2_5_witness:
  "get_id (job_in_state ''running'') 0 world_bound = Inr (PStr ''job-XYZ'')
   \<and> (\<forall>h. state_of (respond (job_in_state ''running'') h (poll (PStr ''job-XYZ'') []))
            = Some (PStr ''running''))
   \<and> (\<forall>h. returns (respond (job_in_state ''running'') h (Sleep 2)))
   \<and> ''io'' \<notin> dom (map_of ([] :: kwargs))
   \<and> wait_on_done (job_in_state ''running'') 0 2 5 [] world_bound =
        Some (Inl (DXJobFailureError ''Reached timeout while waiting for the job to finish''),
              world_bound\<lparr>calls := calls world_bound @
                 [poll (PStr ''job-XYZ'') [], Sleep 2, poll (PStr ''job-XYZ'') [], Sleep 2,
                  poll (PStr ''job-XYZ'') [], Sleep 2, poll (PStr ''job-XYZ'') []]\<rparr>)"
proof -
  have h1: "get_id (job_in_state ''running'') 0 world_bound = Inr (PStr ''job-XYZ'')"
    by (simp add: get_id_def world_bound_def DXJob_def DXJob_init_def set_id_def world0_def Let_def)
  have h2: "\<forall>h. state_of (respond (job_in_state ''running'') h (poll (PStr ''job-XYZ'') []))
              = Some (PStr ''running'')"
    by (simp add: state_of_def job_in_state_def poll_def)
  have h3: "\<forall>h. returns (respond (job_in_state ''running'') h (Sleep 2))"
    by (simp add: job_in_state_def)
  have h4: "''io'' \<notin> dom (map_of ([] :: kwargs))" by simp
  show ?thesis
    using h1 h2 h3 h4 wait_timeout_2_5 [OF h1 h2 h3 h4] by blast
qed

text \<open>
  C4. Outside an execution environment (\<open>DX_JOB_ID\<close> not in \<open>os.environ\<close>), starting
  with the empty \<open>_test_harness_jobs\<close> of a freshly loaded module and with a runner that
  returns, any number \<open>N\<close> of calls of \<open>new\<close> one after the other (on any handlers,
  with any arguments) all succeed and give the IDs \<open>job-1\<close>, \<open>job-2\<close>, ...,
  \<open>job-N\<close> in this order; afterwards the keys of \<open>_test_harness_jobs\<close> are these
  same IDs, in the order of creation and without repetition, so the \<open>k\<close>-th entry has
  the key made from the count \<open>k\<close>.
\<close>

theorem detached_ids_sequential:
  assumes "''DX_JOB_ID'' \<notin> dom (environ w)"
    and "test_harness_jobs w = []"
    and "\<forall>h n x. returns (respond out h (Run n x))"
  shows "\<exists>w'. new_each out rs w = (Inr (map job_name [1..<Suc (length rs)]), w')
           \<and> map fst (test_harness_jobs w') = map job_name [1..<Suc (length rs)]
           \<and> distinct (map fst (test_harness_jobs w'))"
proof -
  have "map fst (test_harness_jobs w) = map job_name [1..<Suc 0]"
    using assms(2) by simp
  from new_each_detached [OF assms(3) assms(1) this, of rs]
  show ?thesis using distinct_job_names [of "length rs"] by auto
qed

theorem detached_ids_sequential_witness:
  "''DX_JOB_ID'' \<notin> dom (environ world0)
   \<and> test_harness_jobs world0 = []
   \<and> (\<forall>h n x. returns (respond (job_in_state ''done'') h (Run n x)))
   \<and> (\<exists>w'. new_each (job_in_state ''done'')
               [(0, PDict [(''a'', PInt 1), (''b'', PInt 2)], PStr ''add'', []),
                (1, PDict [], PStr ''main'', []),
                (0, PDict [], PStr ''main'', [(''priority'', PInt 5)])] world0
              = (Inr [PStr ''job-1'', PStr ''job-2'', PStr ''job-3''], w')
            \<and> map fst (test_harness_jobs w') = [PStr ''job-1'', PStr ''job-2'', PStr ''job-3'']
            \<and> distinct (map fst (test_harness_jobs w')))"
proof -
  have h1: "''DX_JOB_ID'' \<notin> dom (environ world0)" by (simp add: world0_def)
  have h2: "test_harness_jobs world0 = []" by (simp add: world0_def)
  have h3: "\<forall>h n x. returns (respond (job_in_state ''done'') h (Run n x))"
    by (simp add: job_in_state_def)
  show ?thesis
    using h1 h2 h3
      detached_ids_sequential [OF h1 h2 h3,
        of "[(0, PDict [(''a'', PInt 1), (''b'', PInt 2)], PStr ''add'', []),
             (1, PDict [], PStr ''main'', []),
             (0, PDict [], PStr ''main'', [(''priority'', PInt 5)])]"]
    unfolding job_names_3 by blast
qed

text \<open>
  C5. Inside an execution environment (\<open>DX_JOB_ID\<close> in \<open>os.environ\<close>), \<open>new\<close>
  makes exactly one call outside the module: \<open>jobNew\<close> with the dict
  \<open>{"input": fn_input, "function": fn_name}\<close> and the keyword arguments as they were
  given; the runner is not called. If that call raises, \<open>new\<close> raises the same
  exception and leaves the handler as it was; if it returns a response with an \<open>id\<close>
  field, \<open>new\<close> returns and the handler is bound to that ID, and \<open>_test_harness_jobs\<close>
  is untouched.
\<close>

theorem new_remote:
  assumes "''DX_JOB_ID'' \<in> dom (environ w)"
  shows "calls (snd (new out self fn_input fn_name kw w)) =
           calls w @ [JobNew (PDict [(''input'', fn_input), (''function'', fn_name)]) kw]
    \<and> (\<forall>e. respond out (calls w) (JobNew (PDict [(''input'', fn_input), (''function'', fn_name)]) kw) = Inl e \<longrightarrow>
          new out self fn_input fn_name kw w =
            (Inl e, w\<lparr>calls := calls w @ [JobNew (PDict [(''input'', fn_input), (''function'', fn_name)]) kw]\<rparr>))
    \<and> (\<forall>resp i. respond out (calls w) (JobNew (PDict [(''input'', fn_input), (''function'', fn_name)]) kw) = Inr resp
           \<and> subscript resp ''id'' = Inr i \<longrightarrow>
          fst (new out self fn_input fn_name kw w) = Inr ()
          \<and> get_id out self (snd (new out self fn_input fn_name kw w)) = Inr i
          \<and> test_harness_jobs (snd (new out self fn_input fn_name kw w)) = test_harness_jobs w)"
  using assms
  by (auto simp add: new_def call_out_def get_id_def set_id_def Let_def split: sum.splits)

theorem new_remote_witness:
  "''DX_JOB_ID'' \<in> dom (environ world_remote)
   \<and> respond (job_in_state ''running'') (calls world_remote)
         (JobNew (PDict [(''input'', PDict [(''a'', PInt 1)]), (''function'', PStr ''add'')]) [(''priority'', PInt 5)])
       = Inr (PDict [(''id'', PStr ''job-XYZ'')])
   \<and> subscript (PDict [(''id'', PStr ''job-XYZ'')]) ''id'' = Inr (PStr ''job-XYZ'')
   \<and> calls (snd (new (job_in_state ''running'') 0 (PDict [(''a'', PInt 1)]) (PStr ''add'') [(''priority'', PInt 5)] world_remote))
       = [JobNew (PDict [(''input'', PDict [(''a'', PInt 1)]), (''function'', PStr ''add'')]) [(''priority'', PInt 5)]]
   \<and> fst (new (job_in_state ''running'') 0 (PDict [(''a'', PInt 1)]) (PStr ''add'') [(''priority'', PInt 5)] world_remote) = Inr ()
   \<and> get_id (job_in_state ''running'') 0
        (snd (new (job_in_state ''running'') 0 (PDict [(''a'', PInt 1)]) (PStr ''add'') [(''priority'', PInt 5)] world_remote))
       = Inr (PStr ''job-XYZ'')
   \<and> respond all_raise (calls world_remote)
         (JobNew (PDict [(''input'', PDict [(''a'', PInt 1)]), (''function'', PStr ''add'')]) [])
       = Inl (Raised (PStr ''boom''))
   \<and> new all_raise 0 (PDict [(''a'', PInt 1)]) (PStr ''add'') [] world_remote
       = (Inl (Raised (PStr ''boom'')),
          world_remote\<lparr>calls := [JobNew (PDict [(''input'', PDict [(''a'', PInt 1)]), (''function'', PStr ''add'')]) []]\<rparr>)"
proof -
  have h: "''DX_JOB_ID'' \<in> dom (environ world_remote)"
    by (simp add: world_remote_def)
  have c: "calls world_remote = []"
    by (simp add: world_remote_def world0_def)
  have r1: "respond (job_in_state ''running'') (calls world_remote)
         (JobNew (PDict [(''input'', PDict [(''a'', PInt 1)]), (''function'', PStr ''add'')]) [(''priority'', PInt 5)])
       = Inr (PDict [(''id'', PStr ''job-XYZ'')])"
    by (simp add: job_in_state_def)
  have r2: "subscript (PDict [(''id'', PStr ''job-XYZ'')]) ''id'' = Inr (PStr ''job-XYZ'')"
    by simp
  have r3: "respond all_raise (calls world_remote)
         (JobNew (PDict [(''input'', PDict [(''a'', PInt 1)]), (''function'', PStr ''add'')]) [])
       = Inl (Raised (PStr ''boom''))"
    by (simp add: all_raise_def)
  show ?thesis
    using h r1 r2 r3 c
      new_remote [OF h, of "job_in_state ''running''" 0 "PDict [(''a'', PInt 1)]" "PStr ''add''" "[(''priority'', PInt 5)]"]
      new_remote [OF h, of all_raise 0 "PDict [(''a'', PInt 1)]" "PStr ''add''" "[]"]
    by simp
qed

text \<open>
  C6, as the code has it. \<open>set_id\<close> assigns \<open>_dxid\<close> and nothing else: afterwards
  \<open>get_id\<close> returns the new ID, while the result that a detached \<open>new\<close> stored in the
  handler, \<open>_test_harness_jobs\<close> and the events are what they were before.
\<close>

theorem set_id_only_rebinds:
  "get_id out self (set_id self v w) = Inr v
   \<and> test_harness_result (heap (set_id self v w) self) = test_harness_result (heap w self)
   \<and> test_harness_jobs (set_id self v w) = test_harness_jobs w
   \<and> calls (set_id self v w) = calls w"
  by (simp add: get_id_def set_id_def)

text \<open>
  The claim that rebinding leaves no local result fails: a handler made by \<open>new_dxjob\<close>
  in detached mode, whose job returned 3, still holds 3 after \<open>set_id("job-abc")\<close>.
\<close>

theorem set_id_keeps_local_result:
  "fst (new_dxjob (job_in_state ''done'') (PDict [(''a'', PInt 1), (''b'', PInt 2)]) (PStr ''add'') [] world0)
     = Inr 0
   \<and> test_harness_result
       (heap (set_id 0 (PStr ''job-abc'')
                (snd (new_dxjob (job_in_state ''done'') (PDict [(''a'', PInt 1), (''b'', PInt 2)])
                        (PStr ''add'') [] world0))) 0)
     = Some (PInt 3)"
  by (simp add: new_dxjob_def DXJob_def DXJob_init_def new_def call_out_def get_id_def set_id_def
        job_in_state_def world0_def blank_def Let_def)

text \<open>
  C7, as the code has it. \<open>DXJob()\<close> without an ID assigns \<open>_test_harness_result\<close>
  only, so on the new handler \<open>get_id\<close> reads an attribute that the instance does not
  have: it returns the value that the base class \<open>DXObject\<close> gives to \<open>_dxid\<close> when
  the base class declares one, and raises \<open>AttributeError\<close> when it declares none.
\<close>

theorem get_id_unbound:
  "get_id out (fst (DXJob PNone w)) (snd (DXJob PNone w)) =
     (case base_dxid out of None \<Rightarrow> Inl AttributeError | Some v \<Rightarrow> Inr v)"
  by (simp add: get_id_def DXJob_def DXJob_init_def blank_def Let_def)

text \<open>
  The claim that \<open>get_id\<close> on a handler never bound always returns fails when nothing
  but this module defines \<open>_dxid\<close>.
\<close>

theorem get_id_unbound_raises:
  "get_id (job_in_state ''done'') (fst (DXJob PNone world0)) (snd (DXJob PNone world0))
     = Inl AttributeError"
  by (simp add: get_id_def DXJob_def DXJob_init_def blank_def Let_def job_in_state_def world0_def)

text \<open>
  C8. Outside an execution environment, when the runner raises, \<open>new\<close> raises the same
  exception, and nothing of the module has changed: every handler (its ID and its stored
  result) and \<open>_test_harness_jobs\<close> are as before the call; the world differs by the
  one event of the call of the runner.
\<close>

theorem new_detached_failure:
  assumes "''DX_JOB_ID'' \<notin> dom (environ w)"
    and "respond out (calls w) (Run fn_name fn_input) = Inl e"
  shows "new out self fn_input fn_name kw w = (Inl e, w\<lparr>calls := calls w @ [Run fn_name fn_input]\<rparr>)
    \<and> heap (snd (new out self fn_input fn_name kw w)) = heap w
    \<and> get_id out self (snd (new out self fn_input fn_name kw w)) = get_id out self w
    \<and> test_harness_jobs (snd (new out self fn_input fn_name kw w)) = test_harness_jobs w"
  using assms by (simp add: new_def call_out_def)

theorem new_detached_failure_witness:
  "''DX_JOB_ID'' \<notin> dom (environ world_bound)
   \<and> respond all_raise (calls world_bound) (Run (PStr ''add'') (PDict [(''a'', PInt 1)]))
       = Inl (Raised (PStr ''boom''))
   \<and> new all_raise 0 (PDict [(''a'', PInt 1)]) (PStr ''add'') [] world_bound
       = (Inl (Raised (PStr ''boom'')),
          world_bound\<lparr>calls := calls world_bound @ [Run (PStr ''add'') (PDict [(''a'', PInt 1)])]\<rparr>)
   \<and> get_id all_raise 0 (snd (new all_raise 0 (PDict [(''a'', PInt 1)]) (PStr ''add'') [] world_bound))
       = Inr (PStr ''job-XYZ'')
   \<and> test_harness_jobs (snd (new all_raise 0 (PDict [(''a'', PInt 1)]) (PStr ''add'') [] world_bound)) = []"
proof -
  have h1: "''DX_JOB_ID'' \<notin> dom (environ world_bound)"
    by (simp add: world_bound_def DXJob_def DXJob_init_def set_id_def world0_def Let_def)
  have h2: "respond all_raise (calls world_bound) (Run (PStr ''add'') (PDict [(''a'', PInt 1)]))
              = Inl (Raised (PStr ''boom''))"
    by (simp add: all_raise_def)
  have g: "get_id all_raise 0 world_bound = Inr (PStr ''job-XYZ'')"
    by (simp add: get_id_def world_bound_def DXJob_def DXJob_init_def set_id_def world0_def Let_def)
  have j: "test_harness_jobs world_bound = []"
    by (simp add: world_bound_def DXJob_def DXJob_init_def set_id_def world0_def Let_def)
  show ?thesis
    using h1 h2 g j new_detached_failure [OF h1 h2, of 0 "[]"] by simp
qed

text \<open>
  C9. For every \<open>interval \<ge> 1\<close> and \<open>timeout \<ge> 0\<close>, \<open>wait_on_done\<close> returns or
  raises, whatever the handler and the outside do, after at most
  \<open>timeout div interval + 2\<close> describe calls. With \<open>interval = 0\<close> and
  \<open>timeout > 0\<close>, a bound handler, keyword arguments without \<open>io\<close> (so that the
  describe calls are made), every describe call answering with a state other
  than \<open>done\<close>, \<open>failed\<close> and \<open>terminated\<close>, and every sleep returning,
  \<open>elapsed\<close> stays 0 and \<open>wait_on_done\<close> never returns.
\<close>

theorem wait_terminates_or_not:
  "(1 \<le> interval \<and> 0 \<le> timeout \<longrightarrow>
      (\<exists>r w'. wait_on_done out self interval timeout kw w = Some (r, w')
          \<and> describe_calls w' \<le> describe_calls w + (nat (timeout div interval) + 2)))
   \<and> (0 < timeout \<and> get_id out self w = Inr i \<and> ''io'' \<notin> dom (map_of kw)
        \<and> (\<forall>h. \<exists>s. state_of (respond out h (poll i kw)) = Some s \<and> in_progress s)
        \<and> (\<forall>h. returns (respond out h (Sleep 0))) \<longrightarrow>
      wait_on_done out self 0 timeout kw w = None)"
proof (intro conjI impI)
  assume a: "1 \<le> interval \<and> 0 \<le> timeout"
  then obtain r w' where r: "wait_loop out self interval timeout kw 0 w = Some (r, w')"
    and b: "describe_calls w' \<le> describe_calls w + (nat ((timeout - 0 + interval - 1) div interval) + 1)"
    using wait_loop_returns [of interval 0 out self timeout kw w] by auto
  have "(timeout + interval - 1) div interval \<le> timeout div interval + 1"
  proof -
    have "(timeout + interval - 1) div interval \<le> (timeout + interval) div interval"
      using a by (intro zdiv_mono1) auto
    also have "\<dots> = timeout div interval + 1"
    proof -
      have "interval \<noteq> 0" using a by simp
      then show ?thesis by (rule div_add_self2)
    qed
    finally show ?thesis .
  qed
  moreover have "0 \<le> timeout div interval" using a by (simp add: pos_imp_zdiv_nonneg_iff)
  ultimately have "nat ((timeout - 0 + interval - 1) div interval) + 1 \<le> nat (timeout div interval) + 2"
    by simp
  with r b show "\<exists>r w'. wait_on_done out self interval timeout kw w = Some (r, w')
          \<and> describe_calls w' \<le> describe_calls w + (nat (timeout div interval) + 2)"
    unfolding wait_on_done_def by auto
next
  assume "0 < timeout \<and> get_id out self w = Inr i \<and> ''io'' \<notin> dom (map_of kw)
        \<and> (\<forall>h. \<exists>s. state_of (respond out h (poll i kw)) = Some s \<and> in_progress s)
        \<and> (\<forall>h. returns (respond out h (Sleep 0)))"
  then show "wait_on_done out self 0 timeout kw w = None"
    unfolding wait_on_done_def using wait_loop_forever [of out i kw timeout self w] by blast
qed

theorem wait_terminates_or_not_witness:
  "(1::int) \<le> 2 \<and> (0::int) \<le> 5
   \<and> (\<exists>r w'. wait_on_done (job_in_state ''running'') 0 2 5 [] world_bound = Some (r, w')
          \<and> describe_calls w' \<le> describe_calls world_bound + 4)
   \<and> get_id (job_in_state ''running'') 0 world_bound = Inr (PStr ''job-XYZ'')
   \<and> ''io'' \<notin> dom (map_of ([] :: kwargs))
   \<and> (\<forall>h. \<exists>s. state_of (respond (job_in_state ''running'') h (poll (PStr ''job-XYZ'') [])) = Some s
             \<and> in_progress s)
   \<and> (\<forall>h. returns (respond (job_in_state ''running'') h (Sleep 0)))
   \<and> wait_on_done (job_in_state ''running'') 0 0 5 [] world_bound = None"
proof -
  have h1: "get_id (job_in_state ''running'') 0 world_bound = Inr (PStr ''job-XYZ'')"
    by (simp add: get_id_def world_bound_def DXJob_def DXJob_init_def set_id_def world0_def Let_def)
  have h2: "\<forall>h. \<exists>s. state_of (respond (job_in_state ''running'') h (poll (PStr ''job-XYZ'') [])) = Some s
             \<and> in_progress s"
    by (simp add: state_of_def job_in_state_def poll_def in_progress_def)
  have h3: "\<forall>h. returns (respond (job_in_state ''running'') h (Sleep 0))"
    by (simp add: job_in_state_def)
  have d: "nat ((5::int) div 2) + 2 = 4" by simp
  show ?thesis
    using h1 h2 h3
      wait_terminates_or_not [of 2 5 "job_in_state ''running''" 0 "[]" world_bound "PStr ''job-XYZ''"]
    unfolding d by simp
qed

text \<open>
  C10. Only \<open>new\<close> outside an execution environment writes \<open>_test_harness_jobs\<close>:
  \<open>set_id\<close>, \<open>describe\<close>, \<open>terminate\<close>, a \<open>wait_on_done\<close> that comes back,
  and \<open>new\<close> inside an execution environment leave it as it was (\<open>get_id\<close> returns a
  value and no world, so it changes nothing). Hence, after a detached \<open>new\<close> has
  registered a handler under its \<open>job-N\<close> and \<open>set_id\<close> has rebound the handler to
  another ID, the dict still maps \<open>job-N\<close> to that handler, whose ID is now the other
  one.
\<close>

theorem registry_frame:
  "test_harness_jobs (set_id self v w) = test_harness_jobs w
   \<and> test_harness_jobs (snd (describe out self io kw w)) = test_harness_jobs w
   \<and> test_harness_jobs (snd (terminate out self kw w)) = test_harness_jobs w
   \<and> (wait_on_done out self interval timeout kw w = Some (r, w') \<longrightarrow>
        test_harness_jobs w' = test_harness_jobs w)
   \<and> (''DX_JOB_ID'' \<in> dom (environ wr) \<longrightarrow>
        test_harness_jobs (snd (new out self fn_input fn_name kw wr)) = test_harness_jobs wr)
   \<and> (''DX_JOB_ID'' \<notin> dom (environ wd) \<and> returns (respond out (calls wd) (Run fn_name fn_input))
        \<and> v \<noteq> job_name (Suc (length (test_harness_jobs wd))) \<longrightarrow>
        get_id out self (snd (new out self fn_input fn_name kw wd))
          = Inr (job_name (Suc (length (test_harness_jobs wd))))
        \<and> map_of (test_harness_jobs (snd (new out self fn_input fn_name kw wd)))
            (job_name (Suc (length (test_harness_jobs wd)))) = Some self
        \<and> map_of (test_harness_jobs (set_id self v (snd (new out self fn_input fn_name kw wd))))
            (job_name (Suc (length (test_harness_jobs wd)))) = Some self
        \<and> get_id out self (set_id self v (snd (new out self fn_input fn_name kw wd))) = Inr v)"
proof (intro conjI impI)
  show "test_harness_jobs (set_id self v w) = test_harness_jobs w"
    by (simp add: set_id_def)
  show "test_harness_jobs (snd (describe out self io kw w)) = test_harness_jobs w"
    by (simp add: describe_def call_out_def split: sum.splits)
  show "test_harness_jobs (snd (terminate out self kw w)) = test_harness_jobs w"
    by (simp add: terminate_def call_out_def split: sum.splits prod.splits)
  show "test_harness_jobs w' = test_harness_jobs w"
    if "wait_on_done out self interval timeout kw w = Some (r, w')"
    using wait_loop_jobs [of out self interval timeout kw 0 w "(r, w')"] that
    by (simp add: wait_on_done_def)
  show "test_harness_jobs (snd (new out self fn_input fn_name kw wr)) = test_harness_jobs wr"
    if "''DX_JOB_ID'' \<in> dom (environ wr)"
    using that
    by (auto simp add: new_def call_out_def set_id_def Let_def split: sum.splits)
next
  assume a: "''DX_JOB_ID'' \<notin> dom (environ wd) \<and> returns (respond out (calls wd) (Run fn_name fn_input))
        \<and> v \<noteq> job_name (Suc (length (test_harness_jobs wd)))"
  then obtain result where res: "respond out (calls wd) (Run fn_name fn_input) = Inr result"
    by (metis returns.elims(2))
  from a have env: "''DX_JOB_ID'' \<notin> dom (environ wd)" by simp
  note nd = new_detached [OF env res, of self kw]
  show "get_id out self (snd (new out self fn_input fn_name kw wd))
          = Inr (job_name (Suc (length (test_harness_jobs wd))))"
    using nd(2) .
  show k: "map_of (test_harness_jobs (snd (new out self fn_input fn_name kw wd)))
            (job_name (Suc (length (test_harness_jobs wd)))) = Some self"
    using nd(3) by (simp add: update_conv')
  show "map_of (test_harness_jobs (set_id self v (snd (new out self fn_input fn_name kw wd))))
            (job_name (Suc (length (test_harness_jobs wd)))) = Some self"
    using k by (simp add: set_id_def)
  show "get_id out self (set_id self v (snd (new out self fn_input fn_name kw wd))) = Inr v"
    by (simp add: get_id_def set_id_def)
qed

theorem registry_frame_witness:
  "wait_on_done (job_in_state ''done'') 0 2 5 [] world_bound
     = Some (Inr (), world_bound\<lparr>calls := [poll (PStr ''job-XYZ'') []]\<rparr>)
   \<and> test_harness_jobs (world_bound\<lparr>calls := [poll (PStr ''job-XYZ'') []]\<rparr>) = test_harness_jobs world_bound
   \<and> ''DX_JOB_ID'' \<in> dom (environ world_remote)
   \<and> test_harness_jobs (snd (new (job_in_state ''done'') 0 (PDict []) (PStr ''main'') [] world_remote)) = []
   \<and> ''DX_JOB_ID'' \<notin> dom (environ world0)
   \<and> returns (respond (job_in_state ''done'') (calls world0) (Run (PStr ''main'') (PDict [])))
   \<and> PStr ''job-abc'' \<noteq> job_name (Suc (length (test_harness_jobs world0)))
   \<and> get_id (job_in_state ''done'') 0 (snd (new (job_in_state ''done'') 0 (PDict []) (PStr ''main'') [] world0))
       = Inr (PStr ''job-1'')
   \<and> map_of (test_harness_jobs
               (set_id 0 (PStr ''job-abc'')
                  (snd (new (job_in_state ''done'') 0 (PDict []) (PStr ''main'') [] world0))))
        (PStr ''job-1'') = Some 0
   \<and> get_id (job_in_state ''done'') 0
        (set_id 0 (PStr ''job-abc'') (snd (new (job_in_state ''done'') 0 (PDict []) (PStr ''main'') [] world0)))
       = Inr (PStr ''job-abc'')"
proof -
  have wt: "wait_on_done (job_in_state ''done'') 0 2 5 [] world_bound
     = Some (Inr (), world_bound\<lparr>calls := [poll (PStr ''job-XYZ'') []]\<rparr>)"
    by (simp add: wait_on_done_def wait_loop.simps get_state_def describe_def call_out_def
          get_id_def world_bound_def DXJob_def DXJob_init_def set_id_def world0_def Let_def
          job_in_state_def poll_def)
  have hr: "''DX_JOB_ID'' \<in> dom (environ world_remote)"
    by (simp add: world_remote_def)
  have jr: "test_harness_jobs world_remote = []"
    by (simp add: world_remote_def world0_def)
  have j1: "job_name (Suc (length (test_harness_jobs world0))) = PStr ''job-1''"
    by code_simp
  have hd: "''DX_JOB_ID'' \<notin> dom (environ world0)
     \<and> returns (respond (job_in_state ''done'') (calls world0) (Run (PStr ''main'') (PDict [])))
     \<and> PStr ''job-abc'' \<noteq> job_name (Suc (length (test_harness_jobs world0)))"
    unfolding j1 by (simp add: world0_def job_in_state_def)
  show ?thesis
    using wt hr jr hd
      registry_frame [of 0 "PStr ''job-abc''" world_bound "job_in_state ''done''" False "[]" 2 5
         "Inr ()" "world_bound\<lparr>calls := [poll (PStr ''job-XYZ'') []]\<rparr>" world_remote
         "PDict []" "PStr ''main''" world0]
    unfolding j1 by simp
qed

end
